theory Spec2Isabelle
  imports Main "HOL-Library.Word"
begin

unbundle bit_operations_syntax

section \<open>Lexical paths (Go standard library, package \<open>path\<close>)\<close>

text \<open>
  The program builds and takes apart file names with \<open>path.Join\<close>, \<open>path.Dir\<close> and
  \<open>path.Base\<close>. These are purely lexical functions on byte strings; they are modelled
  here statement by statement after the library, since \<open>getPath\<close> and \<open>splitPath\<close>
  are nothing but calls of them. A Go string is a sequence of bytes: \<open>string\<close>.
\<close>

definition slash :: char where
  "slash = CHR ''/''"

definition dot :: char where
  "dot = CHR ''.''"

text \<open>
  \<open>path.Clean\<close> writes into a buffer \<open>out\<close> with a write index \<open>out.w\<close>. The buffer
  is modelled by the list of the bytes below \<open>out.w\<close>, so \<open>out.w\<close> is its length and
  \<open>out.append\<close> appends.

  Backtracking over a \<open>..\<close> element is
  \<^verbatim>\<open>out.w--; for out.w > dotdot && out.index(out.w) != '/' { out.w-- }\<close>.
  \<open>backtrackLoop dotdot buf c\<close> is the \<^verbatim>\<open>for\<close> loop, where \<open>buf\<close> holds the bytes
  below \<open>out.w\<close> and \<open>c\<close> is the byte at index \<open>out.w\<close> (the byte dropped last).
\<close>

function backtrackLoop :: "nat \<Rightarrow> string \<Rightarrow> char \<Rightarrow> string" where
  "backtrackLoop dotdot buf c =
     (if length buf > dotdot \<and> c \<noteq> slash
      then backtrackLoop dotdot (butlast buf) (last buf)
      else buf)"
  by pat_completeness auto
termination
  by (relation "measure (\<lambda>(dotdot, buf, c). length buf)") auto

declare backtrackLoop.simps [simp del]

definition backtrack :: "nat \<Rightarrow> string \<Rightarrow> string" where
  "backtrack dotdot out = backtrackLoop dotdot (butlast out) (last out)"

text \<open>
  The main loop of \<open>path.Clean\<close>, \<^verbatim>\<open>for r < n { switch { ... } }\<close>. The first argument
  is \<open>rooted\<close>, the second the unread input \<open>path[r:]\<close>, then the buffer and the index
  \<open>dotdot\<close>. The four branches are the four cases of the \<^verbatim>\<open>switch\<close>, in order: an
  empty element, a \<open>.\<close> element, a \<open>..\<close> element, a real element (copied up to the
  next slash).
\<close>

definition notSlash :: "char \<Rightarrow> bool" where
  "notSlash c = (c \<noteq> slash)"

function cleanLoop :: "bool \<Rightarrow> string \<Rightarrow> string \<Rightarrow> nat \<Rightarrow> string" where
  "cleanLoop rooted [] out dotdot = out"
| "cleanLoop rooted (c # p) out dotdot =
     (if c = slash then cleanLoop rooted p out dotdot
      else if c = dot \<and> (p = [] \<or> hd p = slash) then cleanLoop rooted p out dotdot
      else if c = dot \<and> hd p = dot \<and> (tl p = [] \<or> hd (tl p) = slash) then
        (if length out > dotdot then cleanLoop rooted (tl p) (backtrack dotdot out) dotdot
         else if \<not> rooted then
           cleanLoop rooted (tl p) ((if length out > 0 then out @ [slash] else out) @ [dot, dot])
             (length ((if length out > 0 then out @ [slash] else out) @ [dot, dot]))
         else cleanLoop rooted (tl p) out dotdot)
      else
        cleanLoop rooted (dropWhile notSlash (c # p))
          ((if rooted \<and> length out \<noteq> 1 \<or> \<not> rooted \<and> length out \<noteq> 0
            then out @ [slash] else out) @ takeWhile notSlash (c # p))
          dotdot)"
  by pat_completeness auto
termination
proof (relation "measure (\<lambda>(rooted, p, out, dotdot). length p)", goal_cases)
  case (7 rooted c p out dotdot)
  have "length (dropWhile notSlash p) \<le> length p"
    by (rule length_dropWhile_le)
  with 7 show ?case by (simp add: notSlash_def)
qed (auto split: list.splits)

declare cleanLoop.simps [simp del]

text \<open>
  \<open>path.Clean\<close>: the empty path is \<open>"."\<close>; a rooted path starts the buffer with the
  slash and \<open>r, dotdot = 1, 1\<close>; an empty result is \<open>"."\<close>.
\<close>

definition Clean :: "string \<Rightarrow> string" where
  "Clean path =
     (if path = [] then [dot]
      else
        let rooted = (hd path = slash);
            out = (if rooted then cleanLoop True (tl path) [slash] 1
                   else cleanLoop False path [] 0)
        in if length out = 0 then [dot] else out)"

text \<open>\<open>strings.LastIndex(s, "/")\<close>: the index of the last slash, or \<open>-1\<close>.\<close>

definition LastIndexSlash :: "string \<Rightarrow> int" where
  "LastIndexSlash s =
     (if slash \<in> set s
      then int (length s) - 1 - int (length (takeWhile notSlash (rev s)))
      else - 1)"

text \<open>\<open>path.Split\<close>: \<^verbatim>\<open>i := strings.LastIndex(path, "/"); return path[:i+1], path[i+1:]\<close>.\<close>

definition Split :: "string \<Rightarrow> string \<times> string" where
  "Split path = (let i = LastIndexSlash path
                 in (take (nat (i + 1)) path, drop (nat (i + 1)) path))"

text \<open>\<open>strings.Join(elems, "/")\<close>.\<close>

fun stringsJoin :: "string list \<Rightarrow> string" where
  "stringsJoin [] = []"
| "stringsJoin [e] = e"
| "stringsJoin (e # es) = e @ [slash] @ stringsJoin es"

text \<open>
  \<open>path.Join\<close>: leading empty elements are skipped, the rest is joined with slashes and
  cleaned; with no non-empty element the result is the empty string.
\<close>

fun Join :: "string list \<Rightarrow> string" where
  "Join [] = []"
| "Join (e # es) = (if e \<noteq> [] then Clean (stringsJoin (e # es)) else Join es)"

text \<open>
  \<open>path.Base\<close>: \<open>"."\<close> for the empty path; trailing slashes are stripped, the part after
  the last slash is kept; a path of slashes only gives \<open>"/"\<close>.
\<close>

definition stripTrailingSlashes :: "string \<Rightarrow> string" where
  "stripTrailingSlashes path = rev (dropWhile (\<lambda>c. c = slash) (rev path))"

definition Base :: "string \<Rightarrow> string" where
  "Base path =
     (if path = [] then [dot]
      else
        let p1 = stripTrailingSlashes path;
            i = LastIndexSlash p1;
            p2 = (if i \<ge> 0 then drop (nat (i + 1)) p1 else p1)
        in if p2 = [] then [slash] else p2)"

text \<open>\<open>path.Dir\<close>: \<^verbatim>\<open>dir, _ := Split(path); return Clean(dir)\<close>.\<close>

definition Dir :: "string \<Rightarrow> string" where
  "Dir path = Clean (fst (Split path))"

section \<open>The operating system\<close>

text \<open>
  The program reaches the outside world through the environment (\<open>os.Getenv\<close>) and the
  file system (\<open>os.Stat\<close>, \<open>os.MkdirAll\<close>, \<open>os.Open\<close>, \<open>os.Create\<close>, \<open>io.Copy\<close>,
  \<open>ioutil.ReadFile\<close>). The world is explicit state: regular files with their bytes and
  directories with their permission bits, both keyed by the path name handed to the
  system call, the process umask, and the failures the environment forces on a call
  (permissions, read-only media, I/O errors). Symbolic and hard links and the working
  directory are outside the model: two files are the same file iff their names are equal.
\<close>

type_synonym bytes = "8 word list"

type_synonym FileMode = "32 word"

datatype errno = ENOENT | EACCES | ENOTDIR | EISDIR | EEXIST | EIO

text \<open>Go's \<open>error\<close> values: \<open>errors.New\<close> of a message, or a failed system call
  (operation, path, cause) as \<open>*os.PathError\<close>.\<close>

datatype error = ErrorString string | PathError string string errno

datatype syscall =
    SysStat string | SysMkdir string | SysOpen string | SysCreate string
  | SysRead string | SysWrite string

record world =
  env :: "string \<Rightarrow> string"
  files :: "string \<rightharpoonup> bytes"
  dirs :: "string \<rightharpoonup> FileMode"
  umask :: FileMode
  fault :: "syscall \<Rightarrow> errno option"
  shortCount :: nat

text \<open>\<open>os.Getenv\<close>: the value of the variable, empty when it is unset.\<close>

definition Getenv :: "world \<Rightarrow> string \<Rightarrow> string" where
  "Getenv w name = env w name"

text \<open>\<open>os.Stat\<close>, reduced to its error: \<open>None\<close> is \<^verbatim>\<open>err == nil\<close>.\<close>

definition os_Stat :: "world \<Rightarrow> string \<Rightarrow> error option" where
  "os_Stat w name =
     (case fault w (SysStat name) of
        Some e \<Rightarrow> Some (PathError ''stat'' name e)
      | None \<Rightarrow>
          if files w name = None \<and> dirs w name = None
          then Some (PathError ''stat'' name ENOENT) else None)"

text \<open>
  \<open>os.Mkdir\<close>: one directory, with \<open>perm\<close> less the umask. The name must be free and
  its parent a directory.
\<close>

definition os_Mkdir :: "world \<Rightarrow> string \<Rightarrow> FileMode \<Rightarrow> error option \<times> world" where
  "os_Mkdir w name perm =
     (case fault w (SysMkdir name) of
        Some e \<Rightarrow> (Some (PathError ''mkdir'' name e), w)
      | None \<Rightarrow>
          if files w name \<noteq> None \<or> dirs w name \<noteq> None
          then (Some (PathError ''mkdir'' name EEXIST), w)
          else if files w (Dir name) \<noteq> None
          then (Some (PathError ''mkdir'' name ENOTDIR), w)
          else if dirs w (Dir name) = None
          then (Some (PathError ''mkdir'' name ENOENT), w)
          else (None, w\<lparr>dirs := (dirs w)(name \<mapsto> perm AND NOT (umask w))\<rparr>))"

text \<open>
  \<open>os.MkdirAll\<close>, after the library: if the path can be stat'ed it must be a directory;
  otherwise trailing slashes are skipped (\<open>i\<close>), the last element is scanned backwards
  (\<open>j\<close>), the parent \<^verbatim>\<open>path[:j-1]\<close> is made first when \<^verbatim>\<open>j > 1\<close>, then the directory
  itself; a failed \<open>Mkdir\<close> is forgiven when the directory is there after all.
\<close>

definition mkdirParent :: "string \<Rightarrow> string option" where
  "mkdirParent path =
     (let i = length (stripTrailingSlashes path);
          j = length (dropWhile notSlash (rev (take i path)))
      in if j > 1 then Some (take (j - 1) path) else None)"

function MkdirAll :: "world \<Rightarrow> string \<Rightarrow> FileMode \<Rightarrow> error option \<times> world" where
  "MkdirAll w path perm =
     (case os_Stat w path of
        None \<Rightarrow>
          if dirs w path \<noteq> None then (None, w)
          else (Some (PathError ''mkdir'' path ENOTDIR), w)
      | Some _ \<Rightarrow>
          (case (case mkdirParent path of
                   None \<Rightarrow> (None, w)
                 | Some parent \<Rightarrow> MkdirAll w parent perm) of
             (Some err, w1) \<Rightarrow> (Some err, w1)
           | (None, w1) \<Rightarrow>
               (case os_Mkdir w1 path perm of
                  (None, w2) \<Rightarrow> (None, w2)
                | (Some err, w2) \<Rightarrow>
                    if os_Stat w2 path = None \<and> dirs w2 path \<noteq> None then (None, w2)
                    else (Some err, w2))))"
  by pat_completeness auto
termination
proof (relation "measure (\<lambda>(w, path, perm). length path)", goal_cases)
  case 1
  show ?case by simp
next
  case (2 w path perm e parent)
  let ?i = "length (stripTrailingSlashes path)"
  let ?j = "length (dropWhile notSlash (rev (take ?i path)))"
  have "?j \<le> length (rev (take ?i path))"
    by (rule length_dropWhile_le)
  then have "?j \<le> length path"
    by simp
  moreover from 2 have "?j > 1" and "parent = take (?j - 1) path"
    by (auto simp: mkdirParent_def Let_def split: if_splits)
  ultimately show ?case
    by simp
qed

declare MkdirAll.simps [simp del]

text \<open>
  \<open>os.Open\<close> for reading. The open file is named by its path. A directory can be opened;
  reading it fails.
\<close>

definition os_Open :: "world \<Rightarrow> string \<Rightarrow> error + string" where
  "os_Open w name =
     (case fault w (SysOpen name) of
        Some e \<Rightarrow> Inl (PathError ''open'' name e)
      | None \<Rightarrow>
          if files w name = None \<and> dirs w name = None
          then Inl (PathError ''open'' name ENOENT) else Inr name)"

text \<open>\<open>os.Create\<close>: the file is created or truncated; its parent must be a directory.\<close>

definition os_Create :: "world \<Rightarrow> string \<Rightarrow> (error + string) \<times> world" where
  "os_Create w name =
     (case fault w (SysCreate name) of
        Some e \<Rightarrow> (Inl (PathError ''open'' name e), w)
      | None \<Rightarrow>
          if dirs w name \<noteq> None then (Inl (PathError ''open'' name EISDIR), w)
          else if dirs w (Dir name) = None then (Inl (PathError ''open'' name ENOENT), w)
          else (Inr name, w\<lparr>files := (files w)(name \<mapsto> [])\<rparr>))"

text \<open>
  \<open>io.Copy(dst, src)\<close>: the bytes of \<open>src\<close>, as they are when the copy runs, are written
  to \<open>dst\<close>. A failing read or write stops the copy after \<open>shortCount\<close> bytes.
\<close>

definition io_Copy :: "world \<Rightarrow> string \<Rightarrow> string \<Rightarrow> error option \<times> world" where
  "io_Copy w dst src =
     (case files w src of
        None \<Rightarrow> (Some (PathError ''read'' src EISDIR), w)
      | Some content \<Rightarrow>
          (case fault w (SysRead src) of
             Some e \<Rightarrow>
               (Some (PathError ''read'' src e),
                w\<lparr>files := (files w)(dst \<mapsto> take (shortCount w) content)\<rparr>)
           | None \<Rightarrow>
               (case fault w (SysWrite dst) of
                  Some e \<Rightarrow>
                    (Some (PathError ''write'' dst e),
                     w\<lparr>files := (files w)(dst \<mapsto> take (shortCount w) content)\<rparr>)
                | None \<Rightarrow> (None, w\<lparr>files := (files w)(dst \<mapsto> content)\<rparr>))))"

text \<open>\<open>ioutil.ReadFile\<close>: open, read to the end.\<close>

definition ioutil_ReadFile :: "world \<Rightarrow> string \<Rightarrow> error + bytes" where
  "ioutil_ReadFile w name =
     (case os_Open w name of
        Inl err \<Rightarrow> Inl err
      | Inr f \<Rightarrow>
          (case files w f of
             None \<Rightarrow> Inl (PathError ''read'' f EISDIR)
           | Some content \<Rightarrow>
               (case fault w (SysRead f) of
                  Some e \<Rightarrow> Inl (PathError ''read'' f e)
                | None \<Rightarrow> Inr content)))"

section \<open>Configuration handles\<close>

text \<open>
  \<^verbatim>\<open>type Config struct { programPath, programName, confName string; isTemporary bool;
  lock sync.RWMutex }\<close>. The lock carries no data and the model is sequential, so it is
  left out of the record.
\<close>

record Config =
  programPath :: string
  programName :: string
  confName :: string
  isTemporary :: bool

text \<open>\<open>getPath\<close>: \<^verbatim>\<open>path.Join(p.programPath, p.programName, p.confName)\<close>.\<close>

definition getPath :: "Config \<Rightarrow> string" where
  "getPath p = Join [programPath p, programName p, confName p]"

text \<open>
  \<open>splitPath\<close> returns its three named results and \<open>err\<close>. The \<^verbatim>\<open>switch ""\<close>
  compares the empty string with each component in turn; every case falls through to the
  assignment of the error.
\<close>

definition splitPath :: "string \<Rightarrow> (string \<times> string \<times> string) \<times> error option" where
  "splitPath fullPath =
     (let dir = Dir fullPath;
          programPath = Dir dir;
          programName = Base dir;
          confName = Base fullPath;
          err = (if [] = programPath then Some (ErrorString ''Could not decompose path.'')
                 else if [] = programName then Some (ErrorString ''Could not decompose path.'')
                 else if [] = confName then Some (ErrorString ''Could not decompose path.'')
                 else None)
      in ((programPath, programName, confName), err))"

text \<open>\<open>Read\<close>: \<^verbatim>\<open>ioutil.ReadFile(c.getPath())\<close> under the read lock.\<close>

definition Read :: "Config \<Rightarrow> world \<Rightarrow> error + bytes" where
  "Read c w = ioutil_ReadFile w (getPath c)"

text \<open>\<open>Exists\<close>: \<^verbatim>\<open>_, err := os.Stat(c.getPath()); return err == nil\<close>.\<close>

definition Exists :: "Config \<Rightarrow> world \<Rightarrow> bool" where
  "Exists c w = (os_Stat w (getPath c) = None)"

text \<open>
  \<open>read\<close> copies the file of \<open>from\<close> into the place of \<open>c\<close>: the parent directories with
  mode \<open>0700\<close>, then open, create, copy; the first error is returned, with the world as
  the calls before it left it.
\<close>

definition perm0700 :: FileMode where
  "perm0700 = 0x1C0"

definition read :: "Config \<Rightarrow> Config \<Rightarrow> world \<Rightarrow> error option \<times> world" where
  "read c from w =
     (case MkdirAll w (Join [programPath c, programName c]) perm0700 of
        (Some err, w1) \<Rightarrow> (Some err, w1)
      | (None, w1) \<Rightarrow>
          (case os_Open w1 (getPath from) of
             Inl err \<Rightarrow> (Some err, w1)
           | Inr fromFile \<Rightarrow>
               (case os_Create w1 (getPath c) of
                  (Inl err, w2) \<Rightarrow> (Some err, w2)
                | (Inr toFile, w2) \<Rightarrow>
                    (case io_Copy w2 toFile fromFile of
                       (Some err, w3) \<Rightarrow> (Some err, w3)
                     | (None, w3) \<Rightarrow> (None, w3)))))"

text \<open>
  The functions that return \<^verbatim>\<open>(*Config, error)\<close>. \<open>findConfig\<close> and \<open>getSysConfig\<close>
  return either a handle or an error, never both: \<open>error + Config\<close>. \<open>copyConf\<close> returns
  its handle together with whatever \<open>read\<close> returned, so the others return the pair as
  Go does, \<open>None\<close> for \<^verbatim>\<open>nil\<close>.
\<close>

definition copyConf ::
  "Config \<Rightarrow> string \<Rightarrow> string \<Rightarrow> string \<Rightarrow> world
     \<Rightarrow> (Config option \<times> error option) \<times> world" where
  "copyConf c programPath' programName' confName' w =
     (let isTmp = (if programPath' = ''/tmp'' then True else False);
          newConf = \<lparr>programPath = programPath', programName = programName',
                     confName = confName', isTemporary = isTmp\<rparr>;
          (err, w') = read newConf c w
      in ((Some newConf, err), w'))"

definition makeTmp :: "Config \<Rightarrow> world \<Rightarrow> (Config option \<times> error option) \<times> world" where
  "makeTmp c w = copyConf c ''/tmp'' (programName c) (confName c) w"

text \<open>\<open>fmt.Sprint\<close> puts no space between two string operands.\<close>

definition findConfig :: "string \<Rightarrow> string \<Rightarrow> string \<Rightarrow> world \<Rightarrow> error + Config" where
  "findConfig configPath programName' confName' w =
     (let conf = \<lparr>programPath = configPath, programName = programName',
                  confName = confName', isTemporary = True\<rparr>
      in if Exists conf w then Inr conf
         else Inl (ErrorString (''Config does not exist in'' @ getPath conf)))"

definition getSysConfig :: "string \<Rightarrow> string \<Rightarrow> world \<Rightarrow> error + Config" where
  "getSysConfig programName' confName' w = findConfig ''/etc'' programName' confName' w"

definition copySysConfig ::
  "string \<Rightarrow> string \<Rightarrow> string \<Rightarrow> world \<Rightarrow> (Config option \<times> error option) \<times> world" where
  "copySysConfig programPath' programName' confName' w =
     (case getSysConfig programName' confName' w of
        Inl err \<Rightarrow> ((None, Some err), w)
      | Inr sysConf \<Rightarrow> copyConf sysConf programPath' programName' confName' w)"

section \<open>Resolution: \<open>Get\<close>\<close>

text \<open>
  The user root: \<^verbatim>\<open>XDG_CONFIG_HOME\<close>, or \<^verbatim>\<open>path.Join(os.Getenv("HOME"), ".config")\<close>
  when that is empty. \<open>Get\<close> takes the root for set when it differs from \<open>".config"\<close>.
\<close>

definition userRoot :: "world \<Rightarrow> string" where
  "userRoot w =
     (let programPath = Getenv w ''XDG_CONFIG_HOME''
      in if programPath = [] then Join [Getenv w ''HOME'', ''.config''] else programPath)"

text \<open>
  The second half of \<open>Get\<close>, from \<^verbatim>\<open>// Try to fetch the system config\<close> on: the system
  configuration or an error; then the copy under \<open>/tmp\<close>, or the system handle when the
  copy fails. It is reached when no user root is set and when the user half gives up.
\<close>

definition getSystem ::
  "string \<Rightarrow> string \<Rightarrow> world \<Rightarrow> (Config option \<times> error option) \<times> world" where
  "getSystem programName' confName' w =
     (case getSysConfig programName' confName' w of
        Inl err \<Rightarrow> ((None, Some err), w)
      | Inr sysConf \<Rightarrow>
          (case makeTmp sysConf w of
             ((tmpConf, Some err), w') \<Rightarrow> ((Some sysConf, None), w')
           | ((tmpConf, None), w') \<Rightarrow> ((tmpConf, None), w')))"

definition Get ::
  "string \<Rightarrow> string \<Rightarrow> world \<Rightarrow> (Config option \<times> error option) \<times> world" where
  "Get programName' confName' w =
     (let programPath = userRoot w
      in if programPath \<noteq> ''.config'' then
           (case findConfig programPath programName' confName' w of
              Inl err \<Rightarrow>
                (case copySysConfig programPath programName' confName' w of
                   ((userConf, None), w') \<Rightarrow> ((userConf, None), w')
                 | ((userConf, Some err'), w') \<Rightarrow> getSystem programName' confName' w')
            | Inr conf \<Rightarrow> ((Some conf, None), w))
         else getSystem programName' confName' w)"

section \<open>The watcher loop of \<open>Listen\<close>\<close>

text \<open>
  The goroutine started by \<open>Listen\<close> waits in a \<^verbatim>\<open>select\<close> for an event or an error of
  the watcher. What it receives is an input of the model, each message together with the
  world as it is when the loop handles it (after the delay, for an event). A send on
  \<open>data\<close> or \<open>errs\<close> is a publication; the channels are unbuffered, so the loop goes on
  once a consumer has taken the value.
\<close>

definition IN_MODIFY :: "32 word" where
  "IN_MODIFY = 0x2"

definition IN_DELETE_SELF :: "32 word" where
  "IN_DELETE_SELF = 0x400"

definition IN_MOVE_SELF :: "32 word" where
  "IN_MOVE_SELF = 0x800"

datatype received = Event "32 word" | WatcherError error

datatype publication = Data bytes | Error error

text \<open>
  The \<^verbatim>\<open>switch ev.Mask\<close>: the cases \<open>IN_MODIFY\<close> and \<open>IN_MOVE_SELF\<close> fall through to the
  empty case \<open>IN_DELETE_SELF\<close> and leave the switch; \<^verbatim>\<open>default: continue\<close> starts the
  next iteration.
\<close>

definition switchContinues :: "32 word \<Rightarrow> bool" where
  "switchContinues evMask =
     (if evMask = IN_MODIFY then False
      else if evMask = IN_MOVE_SELF then False
      else if evMask = IN_DELETE_SELF then False
      else True)"

definition iteration :: "Config \<Rightarrow> received \<times> world \<Rightarrow> publication list" where
  "iteration c rw =
     (case rw of
        (Event evMask, w) \<Rightarrow>
          if switchContinues evMask then []
          else (case Read c w of
                  Inl err \<Rightarrow> [Error err]
                | Inr newConf \<Rightarrow> [Data newConf])
      | (WatcherError err, w) \<Rightarrow> [Error err])"

text \<open>The publications of the loop while it handles a sequence of received messages.\<close>

fun watchLoop :: "Config \<Rightarrow> (received \<times> world) list \<Rightarrow> publication list" where
  "watchLoop c [] = []"
| "watchLoop c (rw # rws) = iteration c rw @ watchLoop c rws"

section \<open>Path components\<close>

text \<open>
  A single path component is a non-empty string without a slash. The components \<open>"."\<close>
  and \<open>".."\<close> are special to \<open>path.Clean\<close>; the others are plain.
\<close>

definition component :: "string \<Rightarrow> bool" where
  "component s = (s \<noteq> [] \<and> slash \<notin> set s)"

definition plain :: "string \<Rightarrow> bool" where
  "plain s = (component s \<and> s \<noteq> [dot] \<and> s \<noteq> [dot, dot])"

section \<open>Example worlds\<close>

text \<open>
  A small machine for the concrete runs below: the system configuration of the program
  \<open>fonts\<close> under \<open>/etc\<close>, a world-writable \<open>/tmp\<close>, a home directory, umask \<open>022\<close>, no
  environment variable set and no call failing. The variants set \<open>HOME\<close> or
  \<open>XDG_CONFIG_HOME\<close>, add a user configuration, or make one system call fail.
\<close>

definition fontsConf :: bytes where
  "fontsConf = [0x3C, 0x3F, 0x78, 0x6D, 0x6C]"

definition plainWorld :: world where
  "plainWorld =
     \<lparr>env = (\<lambda>name. []),
      files = [''/etc/fonts/fonts.conf'' \<mapsto> fontsConf],
      dirs = [''/'' \<mapsto> 0x1ED, ''/etc'' \<mapsto> 0x1ED, ''/etc/fonts'' \<mapsto> 0x1ED,
              ''/tmp'' \<mapsto> 0x3FF, ''/home'' \<mapsto> 0x1ED, ''/home/u'' \<mapsto> 0x1C0],
      umask = 0x12,
      fault = (\<lambda>call. None),
      shortCount = 0\<rparr>"

definition tmpDenied :: world where
  "tmpDenied =
     plainWorld\<lparr>fault := (\<lambda>call. if call = SysMkdir ''/tmp/fonts'' then Some EACCES else None)\<rparr>"

definition homeWorld :: world where
  "homeWorld = plainWorld\<lparr>env := (\<lambda>name. if name = ''HOME'' then ''/home/u'' else [])\<rparr>"

definition homeDenied :: world where
  "homeDenied =
     homeWorld\<lparr>fault := (\<lambda>call. if call = SysMkdir ''/home/u/.config'' then Some EACCES
                                 else None)\<rparr>"

definition userConfigWorld :: world where
  "userConfigWorld =
     plainWorld\<lparr>env := (\<lambda>name. if name = ''XDG_CONFIG_HOME'' then ''/home/u/.config'' else []),
                files := (files plainWorld)(''/home/u/.config/fonts/fonts.conf'' \<mapsto> [0x61])\<rparr>"

definition writeFails :: world where
  "writeFails =
     plainWorld\<lparr>fault := (\<lambda>call. if call = SysWrite ''/tmp/fonts/fonts.conf'' then Some EIO
                                 else None),
                shortCount := 2\<rparr>"

definition statDenied :: world where
  "statDenied =
     plainWorld\<lparr>fault := (\<lambda>call. if call = SysStat ''/etc/fonts/fonts.conf'' then Some EACCES
                                 else None)\<rparr>"

definition sentinelWorld :: world where
  "sentinelWorld =
     plainWorld\<lparr>env := (\<lambda>name. if name = ''XDG_CONFIG_HOME'' then ''.config'' else []),
                dirs := (dirs plainWorld)(''.'' \<mapsto> 0x1ED)\<rparr>"

definition sysHandle :: Config where
  "sysHandle = \<lparr>programPath = ''/etc'', programName = ''fonts'', confName = ''fonts.conf'',
                 isTemporary = True\<rparr>"

definition userHandle :: Config where
  "userHandle = \<lparr>programPath = ''/home/u/.config'', programName = ''fonts'',
                  confName = ''fonts.conf'', isTemporary = False\<rparr>"

definition tmpHandle :: Config where
  "tmpHandle = \<lparr>programPath = ''/tmp'', programName = ''fonts'',
                  confName = ''fonts.conf'', isTemporary = True\<rparr>"

section \<open>Changes of the world\<close>

text \<open>
  \<open>sameSettings w w'\<close>: environment, umask and forced failures are those of \<open>w\<close>.
  \<open>dirsGrow perm w w'\<close>: from \<open>w\<close> to \<open>w'\<close> nothing changed but the directories, and every
  directory that is new in \<open>w'\<close> has the mode \<open>perm\<close> less the umask.
\<close>

definition sameSettings :: "world \<Rightarrow> world \<Rightarrow> bool" where
  "sameSettings w w' =
     (env w' = env w \<and> umask w' = umask w \<and> fault w' = fault w \<and> shortCount w' = shortCount w)"

definition dirsGrow :: "FileMode \<Rightarrow> world \<Rightarrow> world \<Rightarrow> bool" where
  "dirsGrow perm w w' =
     (sameSettings w w' \<and> files w' = files w \<and>
      (\<forall>d. dirs w' d = dirs w d \<or>
           (dirs w d = None \<and> dirs w' d = Some (perm AND NOT (umask w)))))"

section \<open>Properties of the lexical paths\<close>

lemma Clean_nonempty: "Clean p \<noteq> []"
  by (auto simp: Clean_def Let_def)

lemma Dir_nonempty: "Dir p \<noteq> []"
  by (simp add: Dir_def Clean_nonempty)

lemma Base_nonempty: "Base p \<noteq> []"
  by (simp add: Base_def Let_def)

text \<open>
  \<open>path.Clean\<close>, \<open>path.Dir\<close> and \<open>path.Base\<close> never return the empty string, so the
  error branch of \<open>splitPath\<close> is never taken.
\<close>

lemma splitPath_never_fails: "snd (splitPath p) = None"
  using Dir_nonempty [of "Dir p"] Base_nonempty [of "Dir p"] Base_nonempty [of p]
  by (auto simp: splitPath_def Let_def)

lemma cleanLoop_slash: "cleanLoop rooted (slash # p) out dd = cleanLoop rooted p out dd"
  by (simp add: cleanLoop.simps)

lemma takeWhile_elem:
  assumes "slash \<notin> set e" "rest = [] \<or> hd rest = slash"
  shows "takeWhile notSlash (e @ rest) = e" "dropWhile notSlash (e @ rest) = rest"
  using assms by (cases rest; auto simp: notSlash_def takeWhile_append dropWhile_append)+

lemma cleanLoop_elem:
  assumes "plain e" "rest = [] \<or> hd rest = slash"
  shows "cleanLoop rooted (e @ rest) out dd =
         cleanLoop rooted rest
           ((if rooted \<and> length out \<noteq> 1 \<or> \<not> rooted \<and> length out \<noteq> 0
             then out @ [slash] else out) @ e) dd"
proof -
  from assms(1) obtain c e' where e: "e = c # e'" and c: "c \<noteq> slash"
    by (cases e) (auto simp: plain_def component_def)
  let ?p = "e' @ rest"
  have ns: "slash \<notin> set e" using assms(1) by (simp add: plain_def component_def)
  have not2: "\<not> (c = dot \<and> (?p = [] \<or> hd ?p = slash))"
    using assms(1) e by (cases e') (auto simp: plain_def component_def)
  have not3: "\<not> (c = dot \<and> hd ?p = dot \<and> (tl ?p = [] \<or> hd (tl ?p) = slash))"
  proof (cases e')
    case Nil
    then show ?thesis using assms e by (auto simp: plain_def)
  next
    case (Cons d e'')
    then show ?thesis using assms(1) e by (cases e'') (auto simp: plain_def component_def)
  qed
  have "cleanLoop rooted (c # ?p) out dd =
        cleanLoop rooted (dropWhile notSlash (c # ?p))
          ((if rooted \<and> length out \<noteq> 1 \<or> \<not> rooted \<and> length out \<noteq> 0
            then out @ [slash] else out) @ takeWhile notSlash (c # ?p)) dd"
    using c not2 not3 by (subst cleanLoop.simps) (simp only: if_False)
  moreover have "c # ?p = e @ rest" by (simp add: e)
  ultimately show ?thesis
    using takeWhile_elem [OF ns assms(2)] by simp
qed


lemma cleanLoop_elem_cons:
  assumes "plain e"
  shows "cleanLoop rooted (e @ slash # rest) out dd =
         cleanLoop rooted rest
           ((if rooted \<and> length out \<noteq> 1 \<or> \<not> rooted \<and> length out \<noteq> 0
             then out @ [slash] else out) @ e) dd"
  using cleanLoop_elem [OF assms, of "slash # rest" rooted out dd]
  by (simp add: cleanLoop_slash)

lemma cleanLoop_elem_last:
  assumes "plain e"
  shows "cleanLoop rooted e out dd =
           (if rooted \<and> length out \<noteq> 1 \<or> \<not> rooted \<and> length out \<noteq> 0
             then out @ [slash] else out) @ e"
  using cleanLoop_elem [OF assms, of "[]" rooted out dd]
  by (simp add: cleanLoop.simps(1))

lemma cleanLoop_dot:
  assumes "t = [] \<or> hd t = slash"
  shows "cleanLoop rooted (dot # t) out dd = cleanLoop rooted t out dd"
  using assms by (subst cleanLoop.simps) (auto simp: slash_def dot_def)

lemma cleanLoop_dotdot_start:
  assumes "t = [] \<or> hd t = slash"
  shows "cleanLoop False (dot # dot # t) [] 0 = cleanLoop False t [dot, dot] 2"
  using assms by (subst cleanLoop.simps) (auto simp: slash_def dot_def numeral_2_eq_2)

lemma component_cases:
  assumes "component root"
  obtains "root = [dot]" | "root = [dot, dot]" | "plain root"
  using assms by (auto simp: plain_def)

lemma Clean_unrooted:
  assumes "p \<noteq> []" "hd p \<noteq> slash"
  shows "Clean p = (if cleanLoop False p [] 0 = [] then [dot] else cleanLoop False p [] 0)"
  using assms by (simp add: Clean_def Let_def)

lemma Clean_root_tail:
  assumes "component root" "t = [] \<or> hd t = slash"
  shows "Clean (root @ t) =
           (if cleanLoop False t (if root = [dot] then [] else root)
                        (if root = [dot, dot] then 2 else 0) = [] then [dot]
            else cleanLoop False t (if root = [dot] then [] else root)
                        (if root = [dot, dot] then 2 else 0))"
proof -
  from assms(1) have ne: "root @ t \<noteq> []"
    by (simp add: component_def)
  from assms(1) have hd: "hd (root @ t) \<noteq> slash"
    by (cases root) (auto simp: component_def)
  note C = Clean_unrooted [OF ne hd]
  from assms(1) show ?thesis
  proof (cases rule: component_cases)
    case 1
    have "cleanLoop False (root @ t) [] 0 = cleanLoop False t [] 0"
      unfolding 1 using cleanLoop_dot [OF assms(2)] by simp
    then show ?thesis unfolding C by (simp add: 1)
  next
    case 2
    have "cleanLoop False (root @ t) [] 0 = cleanLoop False t [dot, dot] 2"
      unfolding 2 using cleanLoop_dotdot_start [OF assms(2)] by simp
    then show ?thesis unfolding C by (simp add: 2 dot_def)
  next
    case 3
    then have "root \<noteq> [dot]" "root \<noteq> [dot, dot]" by (auto simp: plain_def)
    moreover have "cleanLoop False (root @ t) [] 0 = cleanLoop False t root 0"
      using cleanLoop_elem [OF 3 assms(2), of False "[]" 0] by simp
    ultimately show ?thesis unfolding C by simp
  qed
qed


lemma LastIndexSlash_none:
  assumes "slash \<notin> set f"
  shows "LastIndexSlash f = - 1"
  using assms by (simp add: LastIndexSlash_def)

lemma LastIndexSlash_append:
  assumes "slash \<notin> set f"
  shows "LastIndexSlash (x @ slash # f) = int (length x)"
proof -
  have "takeWhile notSlash (rev f @ slash # rev x) = rev f"
    using assms by (simp add: takeWhile_append notSlash_def)
  then show ?thesis by (simp add: LastIndexSlash_def)
qed

lemma Split_append:
  assumes "slash \<notin> set f"
  shows "Split (x @ slash # f) = (x @ [slash], f)"
  by (simp add: Split_def LastIndexSlash_append [OF assms] nat_add_distrib)

lemma Split_none:
  assumes "slash \<notin> set f"
  shows "Split f = ([], f)"
  by (simp add: Split_def LastIndexSlash_none [OF assms])

lemma strip_component:
  assumes "component f"
  shows "stripTrailingSlashes (x @ f) = x @ f"
proof -
  from assms have "f \<noteq> []" and "last f \<noteq> slash"
    by (auto simp: component_def dest: last_in_set)
  then obtain g c where "f = g @ [c]" "c \<noteq> slash"
    by (metis append_butlast_last_id)
  then show ?thesis by (simp add: stripTrailingSlashes_def)
qed

lemma Base_append:
  assumes "component f"
  shows "Base (x @ slash # f) = f"
proof -
  have ns: "slash \<notin> set f" and ne: "f \<noteq> []"
    using assms by (auto simp: component_def)
  have "stripTrailingSlashes (x @ slash # f) = x @ slash # f"
    using strip_component [OF assms, of "x @ [slash]"] by simp
  then show ?thesis
    using ne by (simp add: Base_def Let_def LastIndexSlash_append [OF ns] nat_add_distrib)
qed

lemma Base_single:
  assumes "component f"
  shows "Base f = f"
proof -
  have ns: "slash \<notin> set f" and ne: "f \<noteq> []"
    using assms by (auto simp: component_def)
  have "stripTrailingSlashes f = f"
    using strip_component [OF assms, of "[]"] by simp
  then show ?thesis
    using ne by (simp add: Base_def Let_def LastIndexSlash_none [OF ns])
qed

lemma Dir_append:
  assumes "slash \<notin> set f"
  shows "Dir (x @ slash # f) = Clean (x @ [slash])"
  by (simp add: Dir_def Split_append [OF assms])

lemma Dir_single:
  assumes "slash \<notin> set f"
  shows "Dir f = [dot]"
  by (simp add: Dir_def Split_none [OF assms] Clean_def)

lemma Clean_component_slash:
  assumes "component root"
  shows "Clean (root @ [slash]) = root"
proof -
  have "root \<noteq> []" using assms by (simp add: component_def)
  then show ?thesis
    using Clean_root_tail [OF assms, of "[slash]"]
    by (simp add: cleanLoop_slash cleanLoop.simps(1))
qed

lemma plain_component: "plain e \<Longrightarrow> component e"
  by (simp add: plain_def)

lemma Join3:
  assumes "component root" "plain program" "plain file"
  shows "Join [root, program, file] =
           (if root = [dot] then program @ slash # file
            else root @ slash # program @ slash # file)"
proof -
  have ne: "root \<noteq> []" using assms(1) by (simp add: component_def)
  have pe: "program \<noteq> []" using assms(2) by (simp add: plain_def component_def)
  have "Join [root, program, file] = Clean (root @ slash # program @ slash # file)"
    using ne by simp
  also have "\<dots> = (if root = [dot] then program @ slash # file
            else root @ slash # program @ slash # file)"
    using Clean_root_tail [OF assms(1), of "slash # program @ slash # file"] ne pe
    by (simp add: cleanLoop_slash cleanLoop_elem_cons [OF assms(2)]
          cleanLoop_elem_last [OF assms(3)])
  finally show ?thesis .
qed

lemma Clean_two:
  assumes "component root" "plain program"
  shows "Clean (root @ slash # program @ [slash]) =
           (if root = [dot] then program else root @ slash # program)"
proof -
  have ne: "root \<noteq> []" using assms(1) by (simp add: component_def)
  have pe: "program \<noteq> []" using assms(2) by (simp add: plain_def component_def)
  show ?thesis
    using Clean_root_tail [OF assms(1), of "slash # program @ [slash]"] ne pe
    by (simp add: cleanLoop_slash cleanLoop_elem_cons [OF assms(2)] cleanLoop.simps(1))
qed

lemma splitPath_Join3:
  assumes "component root" "plain program" "plain file"
  shows "splitPath (Join [root, program, file]) = ((root, program, file), None)"
proof -
  have nsf: "slash \<notin> set file" and nsp: "slash \<notin> set program"
    and cp: "component program" and cf: "component file"
    and fe: "file \<noteq> []" and pe: "program \<noteq> []" and re: "root \<noteq> []"
    using assms by (auto simp: plain_def component_def)
  show ?thesis
  proof (cases "root = [dot]")
    case True
    have full: "Join [root, program, file] = program @ slash # file"
      using Join3 [OF assms] True by simp
    have dir: "Dir (program @ slash # file) = program"
      by (simp add: Dir_append [OF nsf] Clean_component_slash [OF cp])
    have "Dir program = root"
      using True by (simp add: Dir_single [OF nsp])
    moreover have "Base program = program" by (rule Base_single [OF cp])
    moreover have "Base (program @ slash # file) = file" by (rule Base_append [OF cf])
    ultimately show ?thesis
      unfolding full using re pe fe by (simp add: splitPath_def Let_def dir)
  next
    case False
    have full: "Join [root, program, file] = root @ slash # program @ slash # file"
      using Join3 [OF assms] False by simp
    have "Dir ((root @ slash # program) @ slash # file) = Clean ((root @ slash # program) @ [slash])"
      by (rule Dir_append [OF nsf])
    then have dir: "Dir (root @ slash # program @ slash # file) = root @ slash # program"
      using Clean_two [OF assms(1,2)] False by simp
    have "Dir (root @ slash # program) = root"
      by (simp add: Dir_append [OF nsp] Clean_component_slash [OF assms(1)])
    moreover have "Base (root @ slash # program) = program" by (rule Base_append [OF cp])
    moreover have "Base ((root @ slash # program) @ slash # file) = file"
      by (rule Base_append [OF cf])
    ultimately show ?thesis
      unfolding full using re pe fe by (simp add: splitPath_def Let_def dir)
  qed
qed

text \<open>
  C3, as amended. For every root that is a single path component and every program and
  file name that are single path components other than \<open>"."\<close> and \<open>".."\<close>, taking the
  path of the handle apart gives back exactly the three components, with no error.
\<close>

theorem splitPath_getPath_roundtrip:
  assumes "component root" "plain program" "plain file"
  shows "splitPath (getPath \<lparr>programPath = root, programName = program,
                              confName = file, isTemporary = t\<rparr>)
         = ((root, program, file), None)"
  using splitPath_Join3 [OF assms] by (simp add: getPath_def)

theorem splitPath_getPath_roundtrip_witness:
  "component ''etc'' \<and> plain ''fonts'' \<and> plain ''fonts.conf'' \<and>
   splitPath (getPath \<lparr>programPath = ''etc'', programName = ''fonts'',
                        confName = ''fonts.conf'', isTemporary = False\<rparr>)
   = ((''etc'', ''fonts'', ''fonts.conf''), None)"
proof -
  have c: "component ''etc''"
    by (simp add: component_def slash_def)
  have p: "plain ''fonts''"
    by (simp add: plain_def component_def slash_def dot_def)
  have f: "plain ''fonts.conf''"
    by (simp add: plain_def component_def slash_def dot_def)
  show ?thesis
    using c p f splitPath_getPath_roundtrip [OF c p f, of False] by simp
qed

text \<open>
  C3, as stated, fails when the program name is the component \<open>"."\<close>: \<open>path.Join\<close>
  cleans it away, and the path \<open>a/c\<close> comes apart as \<open>(".", "a", "c")\<close>.
\<close>

theorem splitPath_getPath_dot_counterexample:
  "component ''a'' \<and> component ''.'' \<and> component ''c'' \<and>
   splitPath (getPath \<lparr>programPath = ''a'', programName = ''.'',
                        confName = ''c'', isTemporary = False\<rparr>)
   = ((''.'', ''a'', ''c''), None) \<and>
   splitPath (getPath \<lparr>programPath = ''a'', programName = ''.'',
                        confName = ''c'', isTemporary = False\<rparr>)
   \<noteq> ((''a'', ''.'', ''c''), None)"
  by code_simp

text \<open>
  C4. A path of one segment, and a path of two, come apart without an error: the
  missing components are \<open>"."\<close>, never the empty string the \<^verbatim>\<open>switch\<close> looks for.
\<close>

theorem splitPath_short_path_no_error:
  "splitPath ''fonts.conf'' = ((''.'', ''.'', ''fonts.conf''), None) \<and>
   splitPath ''fonts/fonts.conf'' = ((''.'', ''fonts'', ''fonts.conf''), None)"
  by code_simp

section \<open>Existence\<close>

text \<open>
  C8. \<open>Exists\<close> returns a boolean and nothing else: true exactly when \<open>os.Stat\<close> of the
  path of the handle succeeds. Every failure of \<open>os.Stat\<close> gives false, also one that is
  not "not found": when the call is refused (permission denied), \<open>Exists\<close> is false though
  the file is there.
\<close>

theorem Exists_iff_Stat:
  "(Exists c w \<longleftrightarrow> os_Stat w (getPath c) = None) \<and>
   (fault w (SysStat (getPath c)) = Some e \<longrightarrow> \<not> Exists c w)"
  by (simp add: Exists_def os_Stat_def)

theorem Exists_iff_Stat_witness:
  "fault statDenied (SysStat (getPath sysHandle)) = Some EACCES \<and>
   files statDenied (getPath sysHandle) = Some fontsConf \<and>
   \<not> Exists sysHandle statDenied"
proof -
  have a: "fault statDenied (SysStat (getPath sysHandle)) = Some EACCES" by code_simp
  have b: "files statDenied (getPath sysHandle) = Some fontsConf" by code_simp
  show ?thesis
    using a b Exists_iff_Stat [of sysHandle statDenied EACCES] by blast
qed

section \<open>Making directories and copying\<close>

lemma dirsGrow_refl: "dirsGrow perm w w"
  by (simp add: dirsGrow_def sameSettings_def)

lemma dirsGrow_trans:
  assumes "dirsGrow perm w w1" "dirsGrow perm w1 w2"
  shows "dirsGrow perm w w2"
  unfolding dirsGrow_def sameSettings_def
proof (intro conjI allI)
  fix d
  from assms have u: "umask w1 = umask w"
    and a: "dirs w1 d = dirs w d \<or> (dirs w d = None \<and> dirs w1 d = Some (perm AND NOT (umask w)))"
    and b: "dirs w2 d = dirs w1 d \<or> (dirs w1 d = None \<and> dirs w2 d = Some (perm AND NOT (umask w1)))"
    by (auto simp: dirsGrow_def sameSettings_def)
  from a b show "dirs w2 d = dirs w d \<or> (dirs w d = None \<and> dirs w2 d = Some (perm AND NOT (umask w)))"
    unfolding u by auto
qed (use assms in \<open>auto simp: dirsGrow_def sameSettings_def\<close>)

lemma os_Mkdir_grows:
  assumes "os_Mkdir w name perm = (r, w')"
  shows "dirsGrow perm w w'"
  using assms
  by (auto simp: os_Mkdir_def dirsGrow_def sameSettings_def split: option.splits if_splits)

lemma os_Mkdir_success:
  assumes "os_Mkdir w name perm = (None, w')"
  shows "dirs w' name \<noteq> None"
  using assms by (auto simp: os_Mkdir_def split: option.splits if_splits)

lemma MkdirAll_grows: "MkdirAll w path perm = (r, w') \<Longrightarrow> dirsGrow perm w w'"
proof (induction w path perm arbitrary: r w' rule: MkdirAll.induct)
  case (1 w path perm)
  show ?case
  proof (cases "os_Stat w path")
    case None
    with "1.prems" have "w' = w"
      by (subst (asm) MkdirAll.simps) (auto split: if_splits)
    then show ?thesis by (simp add: dirsGrow_refl)
  next
    case (Some e)
    obtain r1 w1 where par:
      "(case mkdirParent path of None \<Rightarrow> (None, w) | Some parent \<Rightarrow> MkdirAll w parent perm) = (r1, w1)"
      by (cases "case mkdirParent path of None \<Rightarrow> (None, w) | Some parent \<Rightarrow> MkdirAll w parent perm")
    have g1: "dirsGrow perm w w1"
    proof (cases "mkdirParent path")
      case None
      with par show ?thesis by (simp add: dirsGrow_refl)
    next
      case (Some parent)
      with par have "MkdirAll w parent perm = (r1, w1)" by simp
      then show ?thesis by (rule "1.IH" [OF \<open>os_Stat w path = Some e\<close> Some])
    qed
    show ?thesis
    proof (cases r1)
      case (Some err)
      with "1.prems" \<open>os_Stat w path = Some e\<close> par have "w' = w1"
        by (subst (asm) MkdirAll.simps) simp
      with g1 show ?thesis by simp
    next
      case None
      obtain r2 w2 where mk: "os_Mkdir w1 path perm = (r2, w2)"
        by (cases "os_Mkdir w1 path perm")
      with "1.prems" \<open>os_Stat w path = Some e\<close> par None have "w' = w2"
        by (subst (asm) MkdirAll.simps) (auto split: option.splits if_splits)
      with dirsGrow_trans [OF g1 os_Mkdir_grows [OF mk]] show ?thesis by simp
    qed
  qed
qed

lemma MkdirAll_success: "MkdirAll w path perm = (None, w') \<Longrightarrow> dirs w' path \<noteq> None"
proof -
  assume a: "MkdirAll w path perm = (None, w')"
  show ?thesis
  proof (cases "os_Stat w path")
    case None
    with a show ?thesis
      by (subst (asm) MkdirAll.simps) (auto split: if_splits)
  next
    case (Some e)
    obtain r1 w1 where par:
      "(case mkdirParent path of None \<Rightarrow> (None, w) | Some parent \<Rightarrow> MkdirAll w parent perm) = (r1, w1)"
      by (cases "case mkdirParent path of None \<Rightarrow> (None, w) | Some parent \<Rightarrow> MkdirAll w parent perm")
    obtain r2 w2 where mk: "os_Mkdir w1 path perm = (r2, w2)"
      by (cases "os_Mkdir w1 path perm")
    from a Some par mk show ?thesis
      by (subst (asm) MkdirAll.simps)
         (auto split: option.splits if_splits dest: os_Mkdir_success)
  qed
qed



lemma read_success:
  assumes "read c from w = (None, w')"
  shows "dirs w' (Join [programPath c, programName c]) \<noteq> None
       \<and> (\<forall>d. dirs w' d = dirs w d \<or>
              (dirs w d = None \<and> dirs w' d = Some (perm0700 AND NOT (umask w))))
       \<and> (\<exists>content. files w (getPath from) = Some content \<and>
              files w' = (files w)(getPath c \<mapsto>
                 (if getPath from = getPath c then [] else content)))"
proof -
  let ?dir = "Join [programPath c, programName c]"
  obtain r1 w1 where mk: "MkdirAll w ?dir perm0700 = (r1, w1)"
    by (cases "MkdirAll w ?dir perm0700")
  with assms have r1: "r1 = None"
    by (cases r1) (simp_all add: read_def del: Join.simps)
  from assms mk r1 obtain fromFile where op: "os_Open w1 (getPath from) = Inr fromFile"
    by (cases "os_Open w1 (getPath from)") (simp_all add: read_def del: Join.simps)
  then have ff: "fromFile = getPath from"
    by (auto simp: os_Open_def split: option.splits if_splits)
  obtain r2 w2 where cr: "os_Create w1 (getPath c) = (r2, w2)"
    by (cases "os_Create w1 (getPath c)")
  with assms mk r1 op obtain toFile where r2: "r2 = Inr toFile"
    by (cases r2) (simp_all add: read_def del: Join.simps)
  from cr r2 have tf: "toFile = getPath c"
    and w2: "w2 = w1\<lparr>files := (files w1)(getPath c \<mapsto> [])\<rparr>"
    by (auto simp: os_Create_def split: option.splits if_splits)
  from assms mk r1 op cr r2 have cp: "io_Copy w2 toFile fromFile = (None, w')"
    by (cases "io_Copy w2 toFile fromFile"; cases "fst (io_Copy w2 toFile fromFile)")
       (simp_all add: read_def del: Join.simps)
  then obtain content where src: "files w2 (getPath from) = Some content"
    and w': "w' = w2\<lparr>files := (files w2)(getPath c \<mapsto> content)\<rparr>"
    unfolding ff tf by (auto simp: io_Copy_def split: option.splits)
  have g: "dirsGrow perm0700 w w1"
    by (rule MkdirAll_grows [OF mk])
  then have f1: "files w1 = files w"
    by (simp add: dirsGrow_def)
  have d: "dirs w' = dirs w1"
    by (simp add: w' w2)
  have "dirs w' ?dir \<noteq> None"
    using MkdirAll_success [of w ?dir perm0700 w1] mk r1 d by simp
  moreover have "\<forall>d. dirs w' d = dirs w d \<or>
              (dirs w d = None \<and> dirs w' d = Some (perm0700 AND NOT (umask w)))"
    using g d by (simp add: dirsGrow_def)
  moreover have "\<exists>content. files w (getPath from) = Some content \<and>
              files w' = (files w)(getPath c \<mapsto>
                 (if getPath from = getPath c then [] else content))"
  proof (cases "getPath from = getPath c")
    case True
    with src w2 have "content = []" by simp
    moreover from op ff cr r2 True have "files w1 (getPath from) \<noteq> None"
      by (auto simp: os_Open_def os_Create_def split: option.splits if_splits)
    ultimately show ?thesis
      using True f1 by (auto simp: w' w2)
  next
    case False
    with src w2 have "files w1 (getPath from) = Some content" by simp
    then show ?thesis
      using False f1 by (simp add: w' w2)
  qed
  ultimately show ?thesis by blast
qed

lemma copyConf_handle:
  "fst (fst (copyConf c newRoot newProgram newFile w)) =
     Some \<lparr>programPath = newRoot, programName = newProgram, confName = newFile,
           isTemporary = (newRoot = ''/tmp'')\<rparr>"
  by (simp add: copyConf_def Let_def split: prod.split)

lemma copyConf_read:
  "copyConf c newRoot newProgram newFile w = ((h, err), w') \<Longrightarrow>
   read \<lparr>programPath = newRoot, programName = newProgram, confName = newFile,
          isTemporary = (newRoot = ''/tmp'')\<rparr> c w = (err, w')"
  by (cases "newRoot = ''/tmp''") (auto simp: copyConf_def Let_def split: prod.splits)





text \<open>
  C10. When \<open>copyConf\<close> returns an error, it returns the handle of the destination with
  it, fully built; so does \<open>makeTmp\<close>. The world is not rolled back: in the run with the
  failing write the directory \<open>/tmp/fonts\<close> has been created and the destination holds
  the first two bytes only.
\<close>

theorem copyConf_handle_with_error:
  "(snd (fst (copyConf c newRoot newProgram newFile w)) \<noteq> None \<longrightarrow>
      fst (fst (copyConf c newRoot newProgram newFile w)) =
        Some \<lparr>programPath = newRoot, programName = newProgram, confName = newFile,
              isTemporary = (newRoot = ''/tmp'')\<rparr>)
   \<and> (snd (fst (makeTmp c w)) \<noteq> None \<longrightarrow>
      fst (fst (makeTmp c w)) =
        Some \<lparr>programPath = ''/tmp'', programName = programName c, confName = confName c,
              isTemporary = True\<rparr>)
   \<and> (snd (fst (makeTmp sysHandle writeFails))
        = Some (PathError ''write'' ''/tmp/fonts/fonts.conf'' EIO)
      \<and> dirs writeFails ''/tmp/fonts'' = None
      \<and> dirs (snd (makeTmp sysHandle writeFails)) ''/tmp/fonts'' = Some 0x1C0
      \<and> files writeFails ''/tmp/fonts/fonts.conf'' = None
      \<and> files (snd (makeTmp sysHandle writeFails)) ''/tmp/fonts/fonts.conf''
          = Some (take 2 fontsConf))"
proof (intro conjI)
  show "snd (fst (copyConf c newRoot newProgram newFile w)) \<noteq> None \<longrightarrow>
      fst (fst (copyConf c newRoot newProgram newFile w)) =
        Some \<lparr>programPath = newRoot, programName = newProgram, confName = newFile,
              isTemporary = (newRoot = ''/tmp'')\<rparr>"
    by (simp add: copyConf_handle)
  show "snd (fst (makeTmp c w)) \<noteq> None \<longrightarrow>
      fst (fst (makeTmp c w)) =
        Some \<lparr>programPath = ''/tmp'', programName = programName c, confName = confName c,
              isTemporary = True\<rparr>"
    by (simp add: makeTmp_def copyConf_handle)
  show "snd (fst (makeTmp sysHandle writeFails))
        = Some (PathError ''write'' ''/tmp/fonts/fonts.conf'' EIO)"
    by code_simp
  show "dirs writeFails ''/tmp/fonts'' = None"
    by code_simp
  show "dirs (snd (makeTmp sysHandle writeFails)) ''/tmp/fonts'' = Some 0x1C0"
    by code_simp
  show "files writeFails ''/tmp/fonts/fonts.conf'' = None"
    by code_simp
  show "files (snd (makeTmp sysHandle writeFails)) ''/tmp/fonts/fonts.conf''
          = Some (take 2 fontsConf)"
    by code_simp
qed

theorem copyConf_handle_with_error_witness:
  "snd (fst (copyConf sysHandle ''/tmp'' ''fonts'' ''fonts.conf'' tmpDenied))
     = Some (PathError ''mkdir'' ''/tmp/fonts'' EACCES) \<and>
   fst (fst (copyConf sysHandle ''/tmp'' ''fonts'' ''fonts.conf'' tmpDenied)) = Some tmpHandle \<and>
   snd (fst (makeTmp sysHandle tmpDenied)) \<noteq> None \<and>
   fst (fst (makeTmp sysHandle tmpDenied)) = Some tmpHandle"
proof -
  have a: "snd (fst (copyConf sysHandle ''/tmp'' ''fonts'' ''fonts.conf'' tmpDenied))
     = Some (PathError ''mkdir'' ''/tmp/fonts'' EACCES)"
    by code_simp
  have b: "snd (fst (makeTmp sysHandle tmpDenied)) \<noteq> None"
    by code_simp
  have c: "programName sysHandle = ''fonts''" "confName sysHandle = ''fonts.conf''"
    by (simp_all add: sysHandle_def)
  show ?thesis
    using a b c copyConf_handle_with_error
      [of sysHandle "''/tmp''" "''fonts''" "''fonts.conf''" tmpDenied]
    by (simp add: tmpHandle_def)
qed

section \<open>Resolution\<close>

lemma Join_config: "Join [[], ''.config''] = ''.config''"
  by code_simp

lemma userRoot_unset:
  assumes "Getenv w ''XDG_CONFIG_HOME'' = []" "Getenv w ''HOME'' = []"
  shows "userRoot w = ''.config''"
  using assms by (simp add: userRoot_def Join_config del: Join.simps)

lemma findConfig_cases:
  "findConfig root p f w =
     (if Exists \<lparr>programPath = root, programName = p, confName = f, isTemporary = True\<rparr> w
      then Inr \<lparr>programPath = root, programName = p, confName = f, isTemporary = True\<rparr>
      else Inl (ErrorString (''Config does not exist in'' @ Join [root, p, f])))"
  by (simp add: findConfig_def Let_def getPath_def del: Join.simps)

text \<open>
  C5. With \<open>XDG_CONFIG_HOME\<close> and \<open>HOME\<close> both empty, and \<open>os.Stat\<close> failing for
  \<open>/etc/programName/confName\<close> (as it does when nothing is there), \<open>Get\<close> returns no
  handle and the error of \<open>findConfig\<close>, and leaves the world as it is.
\<close>

theorem Get_no_configuration:
  assumes "Getenv w ''XDG_CONFIG_HOME'' = []" and "Getenv w ''HOME'' = []"
    and "os_Stat w (Join [''/etc'', programName', confName']) \<noteq> None"
  shows "Get programName' confName' w =
           ((None, Some (ErrorString (''Config does not exist in''
                           @ Join [''/etc'', programName', confName']))), w)"
proof -
  have "getSysConfig programName' confName' w =
          Inl (ErrorString (''Config does not exist in'' @ Join [''/etc'', programName', confName']))"
    using assms(3)
    by (simp add: getSysConfig_def findConfig_def Exists_def getPath_def Let_def del: Join.simps)
  then show ?thesis
    using userRoot_unset [OF assms(1,2)] by (simp add: Get_def getSystem_def)
qed

theorem Get_no_configuration_witness:
  "Getenv plainWorld ''XDG_CONFIG_HOME'' = [] \<and> Getenv plainWorld ''HOME'' = [] \<and>
   os_Stat plainWorld (Join [''/etc'', ''nofonts'', ''fonts.conf'']) \<noteq> None \<and>
   Get ''nofonts'' ''fonts.conf'' plainWorld =
     ((None, Some (ErrorString ''Config does not exist in/etc/nofonts/fonts.conf'')), plainWorld)"
proof -
  have a: "Getenv plainWorld ''XDG_CONFIG_HOME'' = []" by code_simp
  have b: "Getenv plainWorld ''HOME'' = []" by code_simp
  have c: "os_Stat plainWorld (Join [''/etc'', ''nofonts'', ''fonts.conf'']) \<noteq> None" by code_simp
  have d: "Join [''/etc'', ''nofonts'', ''fonts.conf''] = ''/etc/nofonts/fonts.conf''" by code_simp
  show ?thesis
    using a b c Get_no_configuration [OF a b c] by (simp add: d del: Join.simps)
qed

text \<open>
  C1. No user root is set, the system configuration exists and the copy under \<open>/tmp\<close>
  fails (the directory cannot be made): \<open>Get\<close> returns the system handle, and its
  \<open>isTemporary\<close> is true, as \<open>findConfig\<close> sets it for every handle it returns.
\<close>

theorem Get_system_handle_isTemporary:
  "snd (fst (makeTmp sysHandle tmpDenied)) = Some (PathError ''mkdir'' ''/tmp/fonts'' EACCES) \<and>
   fst (Get ''fonts'' ''fonts.conf'' tmpDenied) =
     (Some \<lparr>programPath = ''/etc'', programName = ''fonts'', confName = ''fonts.conf'',
            isTemporary = True\<rparr>, None)"
  by code_simp

text \<open>
  In general: without a user root and with the system configuration found, \<open>Get\<close>
  succeeds. It returns the handle under \<open>/tmp\<close> when \<open>makeTmp\<close> returns no error and the
  system handle when it returns one; \<open>isTemporary\<close> is true in both cases.
\<close>

lemma Get_system_only:
  assumes "userRoot w = ''.config''"
    and "Exists \<lparr>programPath = ''/etc'', programName = p, confName = f, isTemporary = True\<rparr> w"
  shows "\<exists>h w'. Get p f w = ((Some h, None), w') \<and> isTemporary h \<and>
           w' = snd (makeTmp \<lparr>programPath = ''/etc'', programName = p, confName = f,
                              isTemporary = True\<rparr> w) \<and>
           h = (if snd (fst (makeTmp \<lparr>programPath = ''/etc'', programName = p, confName = f,
                                      isTemporary = True\<rparr> w)) = None
                then \<lparr>programPath = ''/tmp'', programName = p, confName = f, isTemporary = True\<rparr>
                else \<lparr>programPath = ''/etc'', programName = p, confName = f,
                       isTemporary = True\<rparr>)"
proof -
  let ?sys = "\<lparr>programPath = ''/etc'', programName = p, confName = f, isTemporary = True\<rparr>"
  obtain h err w' where mt: "makeTmp ?sys w = ((h, err), w')"
    by (cases "makeTmp ?sys w") auto
  then have h: "h = Some \<lparr>programPath = ''/tmp'', programName = p, confName = f,
                           isTemporary = True\<rparr>"
    using copyConf_handle [of ?sys "''/tmp''" p f w] by (simp add: makeTmp_def)
  have "getSysConfig p f w = Inr ?sys"
    using assms(2) by (simp add: getSysConfig_def findConfig_cases del: Join.simps)
  then have "Get p f w = (case err of None \<Rightarrow> ((h, None), w') | Some e \<Rightarrow> ((Some ?sys, None), w'))"
    using assms(1) mt by (simp add: Get_def getSystem_def split: option.split)
  with h mt show ?thesis
    by (cases err) simp_all
qed

text \<open>
  C2. The user root is set by \<open>XDG_CONFIG_HOME\<close> and the user configuration exists:
  \<open>Get\<close> returns the handle of exactly that path, and its \<open>isTemporary\<close> is true.
\<close>

theorem Get_user_handle_isTemporary:
  "userRoot userConfigWorld = ''/home/u/.config'' \<and>
   files userConfigWorld ''/home/u/.config/fonts/fonts.conf'' = Some [0x61] \<and>
   fst (Get ''fonts'' ''fonts.conf'' userConfigWorld) =
     (Some \<lparr>programPath = ''/home/u/.config'', programName = ''fonts'',
            confName = ''fonts.conf'', isTemporary = True\<rparr>, None)"
  by code_simp

text \<open>
  In general: a user configuration that exists is returned as it is found, with the world
  untouched and \<open>isTemporary\<close> true.
\<close>

lemma Get_user_config_found:
  assumes "userRoot w \<noteq> ''.config''"
    and "Exists \<lparr>programPath = userRoot w, programName = p, confName = f, isTemporary = True\<rparr> w"
  shows "Get p f w =
           ((Some \<lparr>programPath = userRoot w, programName = p, confName = f,
                   isTemporary = True\<rparr>, None), w)"
  using assms by (simp add: Get_def Let_def findConfig_cases del: Join.simps)

text \<open>
  C6, as amended. The user root that \<open>Get\<close> computes (\<open>XDG_CONFIG_HOME\<close>, or
  \<open>path.Join(HOME, ".config")\<close> when that is empty) is not the literal \<open>".config"\<close>, and
  \<open>os.Stat\<close> finds no user configuration under it. \<open>Get\<close> tries \<open>copySysConfig\<close> into the
  user root. If that returns no error, \<open>Get\<close> returns the new user handle, whose file then
  holds the bytes of the system configuration. If it returns an error, whatever the cause
  (the system configuration not found, or a directory, open, create or copy failing),
  \<open>Get\<close> goes on with the system configuration and the copy under \<open>/tmp\<close>, in the world
  the attempt left behind.
\<close>

theorem Get_user_config_missing:
  assumes "userRoot w \<noteq> ''.config''"
    and "\<not> Exists \<lparr>programPath = userRoot w, programName = p, confName = f,
                    isTemporary = True\<rparr> w"
  shows "\<exists>r w'. copySysConfig (userRoot w) p f w = (r, w') \<and>
           (snd r = None \<longrightarrow>
              Get p f w = ((Some \<lparr>programPath = userRoot w, programName = p, confName = f,
                                   isTemporary = (userRoot w = ''/tmp'')\<rparr>, None), w') \<and>
              (\<exists>content. files w (Join [''/etc'', p, f]) = Some content \<and>
                          files w' (Join [userRoot w, p, f]) = Some content)) \<and>
           (snd r \<noteq> None \<longrightarrow> Get p f w = getSystem p f w')"
proof -
  let ?user = "\<lparr>programPath = userRoot w, programName = p, confName = f,
                  isTemporary = (userRoot w = ''/tmp'')\<rparr>"
  let ?sys = "\<lparr>programPath = ''/etc'', programName = p, confName = f, isTemporary = True\<rparr>"
  obtain h err w' where cs: "copySysConfig (userRoot w) p f w = ((h, err), w')"
    by (cases "copySysConfig (userRoot w) p f w") auto
  have G: "Get p f w = (case err of None \<Rightarrow> ((h, None), w') | Some e \<Rightarrow> getSystem p f w')"
    using assms cs by (simp add: Get_def Let_def findConfig_cases del: Join.simps)
  have ok: "Get p f w = ((Some ?user, None), w') \<and>
            (\<exists>content. files w (Join [''/etc'', p, f]) = Some content \<and>
                        files w' (Join [userRoot w, p, f]) = Some content)"
    if e: "err = None"
  proof -
    from cs e have found: "getSysConfig p f w = Inr ?sys"
      and cc: "copyConf ?sys (userRoot w) p f w = ((h, None), w')"
      by (auto simp: copySysConfig_def getSysConfig_def findConfig_cases
            split: sum.splits if_splits simp del: Join.simps)
    from found have ex: "Exists ?sys w"
      by (simp add: getSysConfig_def findConfig_cases split: if_splits del: Join.simps)
    have h: "h = Some ?user"
      using copyConf_handle [of ?sys "userRoot w" p f w] cc by simp
    have ne: "getPath ?sys \<noteq> getPath ?user"
    proof
      assume "getPath ?sys = getPath ?user"
      then have "Exists ?user w = Exists ?sys w"
        by (simp add: Exists_def)
      moreover have "Exists ?user w =
        Exists \<lparr>programPath = userRoot w, programName = p, confName = f, isTemporary = True\<rparr> w"
        by (simp add: Exists_def getPath_def del: Join.simps)
      ultimately show False
        using ex assms(2) by simp
    qed
    from read_success [OF copyConf_read [OF cc]] ne
    obtain content where "files w (getPath ?sys) = Some content"
      and "files w' = (files w)(getPath ?user \<mapsto> content)"
      by auto
    then have "files w (Join [''/etc'', p, f]) = Some content \<and>
               files w' (Join [userRoot w, p, f]) = Some content"
      by (simp add: getPath_def del: Join.simps)
    with G e h show ?thesis
      by auto
  qed
  have "snd (h, err) \<noteq> None \<longrightarrow> Get p f w = getSystem p f w'"
    using G by auto
  with ok cs show ?thesis
    by (intro exI [of _ "(h, err)"] exI [of _ w']) simp
qed

theorem Get_user_config_missing_witness:
  "userRoot homeWorld \<noteq> ''.config'' \<and>
   \<not> Exists \<lparr>programPath = userRoot homeWorld, programName = ''fonts'',
              confName = ''fonts.conf'', isTemporary = True\<rparr> homeWorld \<and>
   snd (fst (copySysConfig (userRoot homeWorld) ''fonts'' ''fonts.conf'' homeWorld)) = None \<and>
   fst (Get ''fonts'' ''fonts.conf'' homeWorld) = (Some userHandle, None)"
proof -
  have a: "userRoot homeWorld \<noteq> ''.config''"
    by code_simp
  have b: "\<not> Exists \<lparr>programPath = userRoot homeWorld, programName = ''fonts'',
              confName = ''fonts.conf'', isTemporary = True\<rparr> homeWorld"
    by code_simp
  have c: "snd (fst (copySysConfig (userRoot homeWorld) ''fonts'' ''fonts.conf'' homeWorld)) = None"
    by code_simp
  have u: "userRoot homeWorld = ''/home/u/.config''"
    by code_simp
  from Get_user_config_missing [OF a b] c
  have "fst (Get ''fonts'' ''fonts.conf'' homeWorld) =
          (Some \<lparr>programPath = userRoot homeWorld, programName = ''fonts'',
                  confName = ''fonts.conf'',
                  isTemporary = (userRoot homeWorld = ''/tmp'')\<rparr>, None)"
    by auto
  then have "fst (Get ''fonts'' ''fonts.conf'' homeWorld) = (Some userHandle, None)"
    unfolding u by (simp add: userHandle_def)
  with a b c show ?thesis
    by blast
qed

text \<open>
  C6, as stated, fails: here the system configuration is found, the copy into the user
  root fails because \<open>/home/u/.config\<close> cannot be made, and \<open>Get\<close> falls through and
  returns the handle under \<open>/tmp\<close>.
\<close>

theorem Get_falls_through_counterexample:
  "userRoot homeDenied \<noteq> ''.config'' \<and>
   \<not> Exists \<lparr>programPath = userRoot homeDenied, programName = ''fonts'',
              confName = ''fonts.conf'', isTemporary = True\<rparr> homeDenied \<and>
   getSysConfig ''fonts'' ''fonts.conf'' homeDenied = Inr sysHandle \<and>
   snd (fst (copySysConfig (userRoot homeDenied) ''fonts'' ''fonts.conf'' homeDenied))
     = Some (PathError ''mkdir'' ''/home/u/.config'' EACCES) \<and>
   fst (Get ''fonts'' ''fonts.conf'' homeDenied) = (Some tmpHandle, None)"
  by code_simp

text \<open>
  The test of \<open>Get\<close> is on the computed root, not on the variables: with
  \<open>XDG_CONFIG_HOME\<close> set to \<open>.config\<close> the root equals the literal, and \<open>Get\<close> does not
  look under it nor copy into it, though the copy would go through; it returns the
  handle under \<open>/tmp\<close>.
\<close>

lemma Get_literal_root_skipped:
  "Getenv sentinelWorld ''XDG_CONFIG_HOME'' = ''.config'' \<and>
   userRoot sentinelWorld = ''.config'' \<and>
   \<not> Exists \<lparr>programPath = ''.config'', programName = ''fonts'',
              confName = ''fonts.conf'', isTemporary = True\<rparr> sentinelWorld \<and>
   snd (fst (copySysConfig ''.config'' ''fonts'' ''fonts.conf'' sentinelWorld)) = None \<and>
   fst (Get ''fonts'' ''fonts.conf'' sentinelWorld) = (Some tmpHandle, None)"
  by code_simp

section \<open>The watcher loop\<close>

lemma watchLoop_append: "watchLoop c (xs @ ys) = watchLoop c xs @ watchLoop c ys"
  by (induction xs) simp_all

text \<open>
  C7. Whatever the loop has received before and receives after, for a notification whose
  mask is none of \<open>IN_MODIFY\<close>, \<open>IN_MOVE_SELF\<close>, \<open>IN_DELETE_SELF\<close> it publishes nothing,
  and for one whose mask is one of the three it publishes exactly one value: the bytes
  read, on \<open>data\<close>, or the error of \<open>Read\<close>, on \<open>errs\<close>.
\<close>

theorem watchLoop_notification:
  "watchLoop c (before @ (Event evMask, w) # after) =
     watchLoop c before
     @ (if evMask \<in> {IN_MODIFY, IN_MOVE_SELF, IN_DELETE_SELF}
        then [case Read c w of Inl err \<Rightarrow> Error err | Inr newConf \<Rightarrow> Data newConf]
        else [])
     @ watchLoop c after"
  by (simp add: watchLoop_append iteration_def switchContinues_def split: sum.split)

end
